theory Spec2Isabelle
  imports Complex_Main "HOL-Library.Sublist"
begin

section \<open>Configuration constants\<close>

text \<open>
  The module-level constants of \<^verbatim>\<open>generate_index.py\<close>: the scanned directory, the two
  fetch commands and the base URL of the published scripts.
\<close>

definition scripts_dir :: string where
  \<open>scripts_dir = ''./scripts''\<close>

definition curl_linux :: string where
  \<open>curl_linux = ''curl -sSL''\<close>

definition curl_win :: string where
  \<open>curl_win = ''Invoke-RestMethod''\<close>

definition base_url :: string where
  \<open>base_url = ''https://edoardotosin.com/tools/''\<close>

section \<open>String operations of the source language\<close>

text \<open>
  File names and markup are strings. A character of the model is a byte, so a name
  outside ASCII is its UTF-8 bytes; the tests and the formatting below compare and copy
  characters one by one and give the same result on either reading.

  \<^verbatim>\<open>str.endswith(suffix)\<close>: the last \<open>length suf\<close> characters of \<open>s\<close> are \<open>suf\<close>.
  With a tuple argument the test succeeds when any member of the tuple is a suffix.
\<close>

definition endswith :: "string \<Rightarrow> string \<Rightarrow> bool" where
  "endswith s suf = (length suf \<le> length s \<and> drop (length s - length suf) s = suf)"

definition endswith_any :: "string \<Rightarrow> string list \<Rightarrow> bool" where
  "endswith_any s sufs = list_ex (endswith s) sufs"

text \<open>\<^verbatim>\<open>sep.join(parts)\<close>: the parts with \<open>sep\<close> between neighbours; empty for no parts.\<close>

fun join :: "string \<Rightarrow> string list \<Rightarrow> string" where
  "join sep [] = []"
| "join sep [x] = x"
| "join sep (x # y # ys) = x @ sep @ join sep (y # ys)"

text \<open>
  The slice \<^verbatim>\<open>xs[a:b]\<close> for indices that are not negative: both bounds are clipped to
  the length, and the slice is empty when \<open>b \<le> a\<close>.
\<close>

definition slice :: "'a list \<Rightarrow> nat \<Rightarrow> nat \<Rightarrow> 'a list" where
  "slice xs a b = drop a (take b xs)"

text \<open>
  \<^verbatim>\<open>math.ceil(a / b)\<close> on non-negative integers. The source divides in floating point
  and rounds up; for list lengths (far below \<open>2 ^ 53\<close>) the quotient is exact enough that
  the result is the integer ceiling computed here. The divisor of the script is the
  constant 3, so the division never fails.
\<close>

definition math_ceil_div :: "nat \<Rightarrow> nat \<Rightarrow> nat" where
  "math_ceil_div a b = (if a mod b = 0 then a div b else a div b + 1)"

section \<open>Scan: the filter on the directory listing\<close>

text \<open>
  Line 57: the list comprehension keeps, in listing order, the entries whose name ends
  with one of the five suffixes.
\<close>

definition files_of :: "string list \<Rightarrow> string list" where
  \<open>files_of entries =
    filter (\<lambda>file. endswith_any file [''.sh'', ''.bash'', ''.py'', ''.pyw'', ''.ps1'']) entries\<close>

section \<open>Classification and list items\<close>

text \<open>
  The conditional expression of lines 25 to 48 tests the suffixes in a fixed order; the
  first test that succeeds selects the markup. \<open>file_kind\<close> is that chain of tests and
  \<open>list_item\<close> the four formatted strings it selects from (the source writes both
  as one expression).
\<close>

datatype kind = Shell | Python | PowerShell | Unsupported

definition file_kind :: "string \<Rightarrow> kind" where
  \<open>file_kind file =
    (if endswith_any file [''.sh'', ''.bash''] then Shell
     else if endswith_any file [''.py'', ''.pyw''] then Python
     else if endswith file ''.ps1'' then PowerShell
     else Unsupported)\<close>

definition list_item :: "string \<Rightarrow> string" where
  \<open>list_item file =
    (case file_kind file of
      Shell \<Rightarrow>
        ''\<newline>'' @
        ''            <li>\<newline>'' @
        ''                <button onclick="copyCommand('' @ [CHR 0x27] @ file @ [CHR 0x27] @ '')" title="Click to copy command: '' @ curl_linux @ '' '' @ [CHR 0x27] @ base_url @ file @ [CHR 0x27] @ '' | bash">Copy</button>\<newline>'' @
        ''                <a href="'' @ file @ ''">'' @ file @ ''</a>\<newline>'' @
        ''            </li>\<newline>'' @
        ''            ''
    | Python \<Rightarrow>
        ''\<newline>'' @
        ''            <li>\<newline>'' @
        ''                <button onclick="copyCommand('' @ [CHR 0x27] @ file @ [CHR 0x27] @ '')" title="Click to copy command: '' @ curl_linux @ '' '' @ [CHR 0x27] @ base_url @ file @ [CHR 0x27] @ '' | python3">Copy</button>\<newline>'' @
        ''                <a href="'' @ file @ ''">'' @ file @ ''</a>\<newline>'' @
        ''            </li>\<newline>'' @
        ''            ''
    | PowerShell \<Rightarrow>
        ''\<newline>'' @
        ''            <li>\<newline>'' @
        ''                <button onclick="copyCommand('' @ [CHR 0x27] @ file @ [CHR 0x27] @ '')" title="Click to copy command: '' @ curl_win @ '' '' @ [CHR 0x27] @ base_url @ file @ [CHR 0x27] @ '' | Invoke-Expression">Copy</button>\<newline>'' @
        ''                <a href="'' @ file @ ''">'' @ file @ ''</a>\<newline>'' @
        ''            </li>\<newline>'' @
        ''            ''
    | Unsupported \<Rightarrow>
        ''\<newline>'' @
        ''            <li>\<newline>'' @
        ''                <button onclick="alert('Unsupported file type!')" title="Unsupported file type">Copy</button>\<newline>'' @
        ''                <a href="'' @ file @ ''">'' @ file @ ''</a>\<newline>'' @
        ''            </li>\<newline>'' @
        ''            '')\<close>

section \<open>Partition into columns\<close>

definition num_columns :: nat where
  "num_columns = 3"

definition num_per_column :: "string list \<Rightarrow> nat" where
  "num_per_column files = math_ceil_div (length files) num_columns"

text \<open>The files of column \<open>i\<close>: lines 20 to 22 of the loop body.\<close>

definition column_files :: "string list \<Rightarrow> nat \<Rightarrow> string list" where
  "column_files files i =
    (let num_files = length files;
         start_index = i * num_per_column files;
         end_index = min ((i + 1) * num_per_column files) num_files
     in slice files start_index end_index)"

definition column_items :: "string list \<Rightarrow> string" where
  \<open>column_items col = join ''\<newline>'' (map list_item col)\<close>

definition columns :: "string list \<Rightarrow> string list" where
  \<open>columns files =
    map (\<lambda>i. ''<ul>'' @ column_items (column_files files i) @ ''</ul>'') [0..<num_columns]\<close>

definition generate_list_items :: "string list \<Rightarrow> string" where
  \<open>generate_list_items files =
    join ''\<newline>''
      (map (\<lambda>column. ''<div style="float:left; width:33%;">'' @ column @ ''</div>'')
        (columns files))\<close>

section \<open>The document template\<close>

text \<open>
  The formatted string of lines 59 to 174, one source line per row. The doubled braces
  of the source are single braces in the result.
\<close>

definition html_content :: "string \<Rightarrow> string" where
  \<open>html_content list_items =
    ''<!DOCTYPE html>\<newline>'' @
    ''<html lang="en">\<newline>'' @
    ''<head>\<newline>'' @
    ''    <meta http-equiv="Content-Type" content="text/html; charset=UTF-8">\<newline>'' @
    ''    <meta name="viewport" content="width=device-width, initial-scale=1.0">\<newline>'' @
    ''    <meta content="Automation Tools" property="og:site_name">\<newline>'' @
    ''    <meta content="Computer Science Odyssey: Unraveling the Tech Maze" property="og:tagline" name="tagline">\<newline>'' @
    ''    <meta content="Welcome to my personal tech hub! This website is a reflection of my journey in the fascinating world of technology. The blog section is a curated collection of posts demonstrating my ability to cre..." property="og:description" name="description">\<newline>'' @
    ''    <meta content="Edoardo Tosin" property="article:author">\<newline>'' @
    ''    <meta property="og:image" content="https://edoardotosin.com/assets/img/OGImg.jpg">\<newline>'' @
    ''    <meta content="Automation Tools" property="og:title">\<newline>'' @
    ''    <meta content="article" property="og:type">\<newline>'' @
    ''    <meta content="https://edoardotosin.com/tools" property="og:url">\<newline>'' @
    ''    <link rel="canonical" href="https://edoardotosin.com/tools">\<newline>'' @
    ''    <title>Automation Tools - Edoardo Tosin</title>\<newline>'' @
    ''    <!-- Style -->\<newline>'' @
    ''    <link href="../assets/css/style.css" rel="stylesheet" media="all" class="default" />\<newline>'' @
    ''    <link href="../assets/css/main.css" rel="stylesheet" media="all" class="default" />\<newline>'' @
    ''    <link href="../assets/css/Util.css" rel="stylesheet" media="all" class="default" />\<newline>'' @
    ''    <style>\<newline>'' @
    ''        body {\<newline>'' @
    ''            font-family: Arial, sans-serif;\<newline>'' @
    ''        }\<newline>'' @
    ''        h1 {\<newline>'' @
    ''            text-align: center;\<newline>'' @
    ''        }\<newline>'' @
    ''        ul {\<newline>'' @
    ''            list-style-type: none;\<newline>'' @
    ''            padding: 0;\<newline>'' @
    ''        }\<newline>'' @
    ''        li {\<newline>'' @
    ''            margin: 5px 0;\<newline>'' @
    ''            display: flex;\<newline>'' @
    ''            align-items: center;\<newline>'' @
    ''        }\<newline>'' @
    ''        a {\<newline>'' @
    ''            margin-left: 10px;\<newline>'' @
    ''            text-decoration: none;\<newline>'' @
    ''            color: #007BFF;\<newline>'' @
    ''        }\<newline>'' @
    ''        a:hover {\<newline>'' @
    ''            text-decoration: underline;\<newline>'' @
    ''        }\<newline>'' @
    ''        button {\<newline>'' @
    ''            margin-left: 10px;\<newline>'' @
    ''            padding: 5px 10px;\<newline>'' @
    ''            cursor: pointer;\<newline>'' @
    ''            background-color: #007BFF;\<newline>'' @
    ''            color: #FFF;\<newline>'' @
    ''            border: none;\<newline>'' @
    ''            border-radius: 3px;\<newline>'' @
    ''        }\<newline>'' @
    ''        button:hover {\<newline>'' @
    ''            background-color: #0056b3;\<newline>'' @
    ''        }\<newline>'' @
    ''        .copy-notification {\<newline>'' @
    ''            position: fixed;\<newline>'' @
    ''            top: 20em; /* Adjusted position to avoid overlapping with the title */\<newline>'' @
    ''            left: 50%;\<newline>'' @
    ''            transform: translateX(-50%);\<newline>'' @
    ''            display: none;\<newline>'' @
    ''            padding: 10px;\<newline>'' @
    ''            background-color: #dff0d8;\<newline>'' @
    ''            color: #3c763d;\<newline>'' @
    ''            border: 1px solid #d6e9c6;\<newline>'' @
    ''            border-radius: 4px;\<newline>'' @
    ''            text-align: center;\<newline>'' @
    ''            width: fit-content;\<newline>'' @
    ''        }\<newline>'' @
    ''        .column {\<newline>'' @
    ''            float: left;\<newline>'' @
    ''            width: 33.33%;\<newline>'' @
    ''        }\<newline>'' @
    ''    </style>\<newline>'' @
    ''    <!-- Twitter -->\<newline>'' @
    ''    <meta name="twitter:card" content="summary_large_image">\<newline>'' @
    ''    <meta name="twitter:site" content="@EdoardoTosin">\<newline>'' @
    ''    <meta name="twitter:creator" content="@EdoardoTosin">\<newline>'' @
    ''    <meta name="twitter:title" content="Automation Tools">\<newline>'' @
    ''    <meta name="twitter:description" content="Welcome to my personal tech hub! This website is a reflection of my journey in the fascinating world of technology. The blog section is a curated collection of posts demonstrati...">\<newline>'' @
    ''    <meta property="twitter:image" content="https://edoardotosin.com/assets/img/OGImg.jpg">\<newline>'' @
    ''</head>\<newline>'' @
    ''<body>\<newline>'' @
    ''    <h1>Automation Tools</h1>\<newline>'' @
    ''    <div class="copy-notification" id="copyNotification">Command copied to clipboard!</div>\<newline>'' @
    ''    '' @ list_items @ ''\<newline>'' @
    ''    <script>\<newline>'' @
    ''        function copyCommand(filename) {\<newline>'' @
    ''            const baseUrl = '' @ [CHR 0x27] @ base_url @ [CHR 0x27] @ '';\<newline>'' @
    ''            let command;\<newline>'' @
    ''\<newline>'' @
    ''            if (filename.endsWith('.sh') || filename.endsWith('.bash')) {\<newline>'' @
    ''                command = `'' @ curl_linux @ '' "${baseUrl}${filename}" | bash`;\<newline>'' @
    ''            } else if (filename.endsWith('.py') || filename.endsWith('.pyw')) {\<newline>'' @
    ''                command = `'' @ curl_linux @ '' "${baseUrl}${filename}" | python3`;\<newline>'' @
    ''            } else if (filename.endsWith('.ps1')) {\<newline>'' @
    ''                command = `'' @ curl_win @ '' "${baseUrl}${filename}" | Invoke-Expression`;\<newline>'' @
    ''            } else {\<newline>'' @
    ''                alert('Unsupported file type!');\<newline>'' @
    ''                return;\<newline>'' @
    ''            }\<newline>'' @
    ''\<newline>'' @
    ''            navigator.clipboard.writeText(command).then(() => {\<newline>'' @
    ''                const notification = document.getElementById('copyNotification');\<newline>'' @
    ''                notification.style.display = 'block';\<newline>'' @
    ''                setTimeout(() => {\<newline>'' @
    ''                    notification.style.display = 'none';\<newline>'' @
    ''                }, 2000);\<newline>'' @
    ''            }, (err) => {\<newline>'' @
    ''                alert('Failed to copy!', err);\<newline>'' @
    ''            });\<newline>'' @
    ''        }\<newline>'' @
    ''    </script>\<newline>'' @
    ''</body>\<newline>'' @
    ''</html>\<newline>''\<close>


section \<open>The run of the script: operating system, exceptions, output\<close>

text \<open>
  The script talks to the operating system three times: \<^verbatim>\<open>os.listdir\<close>, \<^verbatim>\<open>open\<close> for
  writing and \<^verbatim>\<open>file.write\<close>, and it prints. Each call either returns or raises. What
  the operating system answers during one run is a parameter of the model (the fields
  \<open>listdir_result\<close>, \<open>open_failure\<close> and \<open>write_failure\<close>); the files and the
  printed lines are the state the script changes.

  An exception carries its class and the text \<^verbatim>\<open>str(e)\<close>. \<^verbatim>\<open>except Exception\<close> catches
  every class but those that derive from \<^verbatim>\<open>BaseException\<close> only, of which an interrupt
  arriving during a call is the one that can occur here.
\<close>

datatype exn_class =
  FileNotFoundError | PermissionError | NotADirectoryError | IsADirectoryError
  | OSError | UnicodeEncodeError | KeyboardInterrupt

datatype py_exception = Raise (exc_class: exn_class) (exc_str: string)

fun is_Exception :: "exn_class \<Rightarrow> bool" where
  "is_Exception KeyboardInterrupt = False"
| "is_Exception _ = True"

record world =
  listdir_result :: "string \<Rightarrow> py_exception + string list"
  open_failure :: "string \<Rightarrow> py_exception option"
  write_failure :: "string \<Rightarrow> string \<Rightarrow> (py_exception \<times> nat) option"
  file_contents :: "string \<Rightarrow> string option"
  stdout :: "string list"

text \<open>A string between single quotes, as \<^verbatim>\<open>repr\<close> prints a path in a message.\<close>

definition single_quoted :: "string \<Rightarrow> string" where
  "single_quoted s = [CHR 0x27] @ s @ [CHR 0x27]"

text \<open>\<^verbatim>\<open>os.path.join(a, b)\<close> for two components, as \<^verbatim>\<open>posixpath\<close> defines it.\<close>

definition os_path_join :: "string \<Rightarrow> string \<Rightarrow> string" where
  \<open>os_path_join a b =
    (if take 1 b = ''/'' then b
     else if a = [] \<or> endswith a ''/'' then a @ b
     else a @ ''/'' @ b)\<close>

definition print_line :: "string \<Rightarrow> world \<Rightarrow> world" where
  "print_line s w = w\<lparr>stdout := stdout w @ [s]\<rparr>"

text \<open>
  \<^verbatim>\<open>with open(path, 'w') as file: file.write(content)\<close>. Opening truncates the file; a
  write that fails leaves the part already written (its length is the operating
  system's answer); a write that succeeds leaves the whole content.
\<close>

definition write_file :: "string \<Rightarrow> string \<Rightarrow> world \<Rightarrow> world \<times> (py_exception + unit)" where
  "write_file path content w =
    (case open_failure w path of
      Some e \<Rightarrow> (w, Inl e)
    | None \<Rightarrow>
        (case write_failure w path content of
          Some (e, n) \<Rightarrow> (w\<lparr>file_contents := (file_contents w)(path \<mapsto> take n content)\<rparr>, Inl e)
        | None \<Rightarrow> (w\<lparr>file_contents := (file_contents w)(path \<mapsto> content)\<rparr>, Inr ())))"

text \<open>The body of the \<^verbatim>\<open>try\<close> statement, lines 57 to 178.\<close>

definition try_body :: "world \<Rightarrow> world \<times> (py_exception + unit)" where
  \<open>try_body w =
    (case listdir_result w scripts_dir of
      Inl e \<Rightarrow> (w, Inl e)
    | Inr entries \<Rightarrow>
        (let files = files_of entries;
             list_items = generate_list_items files
         in case write_file (os_path_join scripts_dir ''index.html'') (html_content list_items) w of
              (w', Inl e) \<Rightarrow> (w', Inl e)
            | (w', Inr u) \<Rightarrow> (print_line ''HTML file generated successfully!'' w', Inr ())))\<close>

text \<open>
  The whole script: the \<^verbatim>\<open>try\<close> body and the handler of line 180. The run ends
  \<open>Finished\<close> when control reaches the end of the module and \<open>Uncaught e\<close> when an
  exception leaves it; the interpreter exits with status 0 in the first case and 1 in
  the second.
\<close>

datatype outcome = Finished | Uncaught py_exception

definition main :: "world \<Rightarrow> world \<times> outcome" where
  \<open>main w =
    (case try_body w of
      (w', Inr u) \<Rightarrow> (w', Finished)
    | (w', Inl e) \<Rightarrow>
        if is_Exception (exc_class e) then (print_line (''Error: '' @ exc_str e) w', Finished)
        else (w', Uncaught e))\<close>

fun exit_status :: "outcome \<Rightarrow> nat" where
  "exit_status Finished = 0"
| "exit_status (Uncaught e) = 1"

text \<open>
  Three operating systems to run the script on: one whose directory lists the given
  entries and whose file system accepts the write (it already holds an older
  \<open>index.html\<close> and a second file), one without the directory, and one that refuses to
  open the output file.
\<close>

definition world_ok :: "string list \<Rightarrow> world" where
  \<open>world_ok entries =
    \<lparr>listdir_result = (\<lambda>p. Inr entries),
     open_failure = (\<lambda>p. None),
     write_failure = (\<lambda>p c. None),
     file_contents = [''./scripts/index.html'' \<mapsto> ''old'', ''./scripts/a.sh'' \<mapsto> ''echo a''],
     stdout = []\<rparr>\<close>

definition world_no_directory :: world where
  \<open>world_no_directory =
    \<lparr>listdir_result =
       (\<lambda>p. Inl (Raise FileNotFoundError (''[Errno 2] No such file or directory: '' @ single_quoted p))),
     open_failure = (\<lambda>p. None),
     write_failure = (\<lambda>p c. None),
     file_contents = Map.empty,
     stdout = []\<rparr>\<close>

definition world_read_only :: "string list \<Rightarrow> world" where
  \<open>world_read_only entries =
    \<lparr>listdir_result = (\<lambda>p. Inr entries),
     open_failure =
       (\<lambda>p. Some (Raise PermissionError (''[Errno 13] Permission denied: '' @ single_quoted p))),
     write_failure = (\<lambda>p c. None),
     file_contents = [''./scripts/a.sh'' \<mapsto> ''echo a''],
     stdout = []\<rparr>\<close>

section \<open>Reading the generated document\<close>

text \<open>
  The properties of the document are stated with observations of a string; none of
  them is code of the script.

  \<open>count_occ pat s\<close> is the number of positions of \<open>s\<close> at which \<open>pat\<close> starts.
\<close>

fun count_occ :: "string \<Rightarrow> string \<Rightarrow> nat" where
  "count_occ pat [] = 0"
| "count_occ pat (c # cs) = of_bool (prefix pat (c # cs)) + count_occ pat cs"

text \<open>
  \<open>scan_html\<close> reads a document as a browser's tokenizer does in its main states:
  text, a tag's name, a tag's attributes and a double-quoted attribute value. It keeps
  the stack of open elements and, for every \<open>li\<close> element it opens, the stack at that
  moment. A declaration or comment (\<open><!\<close>) and a void or self-closing element open
  nothing; an end tag must close the innermost open element. The bodies of
  \<open>script\<close> and \<open>style\<close> are read as text.
\<close>

datatype scan_mode = Text | TagName string | TagAttrs string bool | AttrValue string

datatype scan_state = Bad | Scan scan_mode "string list" "string list list"

definition void_elements :: "string list" where
  \<open>void_elements = [''area'', ''base'', ''br'', ''col'', ''embed'', ''hr'', ''img'', ''input'',
    ''link'', ''meta'', ''source'', ''track'', ''wbr'']\<close>

definition finish_tag :: "string \<Rightarrow> bool \<Rightarrow> string list \<Rightarrow> string list list \<Rightarrow> scan_state" where
  \<open>finish_tag nm self_closing stack lis =
    (case nm of
      [] \<Rightarrow> Bad
    | c # rest \<Rightarrow>
        if c = CHR ''!'' then Scan Text stack lis
        else if c = CHR ''/'' then
          (case stack of
            [] \<Rightarrow> Bad
          | innermost # below \<Rightarrow> if innermost = rest then Scan Text below lis else Bad)
        else if self_closing \<or> nm \<in> set void_elements then Scan Text stack lis
        else Scan Text (nm # stack) (if nm = ''li'' then lis @ [stack] else lis))\<close>

fun scan_step :: "scan_state \<Rightarrow> char \<Rightarrow> scan_state" where
  \<open>scan_step Bad c = Bad\<close>
| \<open>scan_step (Scan Text stack lis) c =
    (if c = CHR ''<'' then Scan (TagName []) stack lis else Scan Text stack lis)\<close>
| \<open>scan_step (Scan (TagName nm) stack lis) c =
    (if c = CHR ''>'' then finish_tag nm False stack lis
     else if c = CHR '' '' \<or> c = CHR ''\<newline>'' then Scan (TagAttrs nm False) stack lis
     else if c = CHR ''/'' \<and> nm \<noteq> [] then Scan (TagAttrs nm True) stack lis
     else if c = CHR ''<'' then Bad
     else Scan (TagName (nm @ [c])) stack lis)\<close>
| \<open>scan_step (Scan (TagAttrs nm sl) stack lis) c =
    (if c = CHR ''>'' then finish_tag nm sl stack lis
     else if c = CHR 0x22 then Scan (AttrValue nm) stack lis
     else Scan (TagAttrs nm (c = CHR ''/'')) stack lis)\<close>
| \<open>scan_step (Scan (AttrValue nm) stack lis) c =
    (if c = CHR 0x22 then Scan (TagAttrs nm False) stack lis else Scan (AttrValue nm) stack lis)\<close>

definition scan_html :: "string \<Rightarrow> scan_state" where
  "scan_html s = foldl scan_step (Scan Text [] []) s"

text \<open>
  A document is well nested when the scan ends in text with no element left open;
  \<open>li_contexts\<close> are the stacks under which its list items were opened.
\<close>

definition well_nested :: "string \<Rightarrow> bool" where
  "well_nested s = (case scan_html s of Scan Text [] lis \<Rightarrow> True | _ \<Rightarrow> False)"

definition li_contexts :: "string \<Rightarrow> string list list" where
  "li_contexts s = (case scan_html s of Scan m stack lis \<Rightarrow> lis | Bad \<Rightarrow> [])"

text \<open>
  A name is safe to embed in the markup when it holds neither \<open><\<close> nor a double quote:
  the script writes names into text and into double-quoted attribute values as they
  are.
\<close>

definition html_safe :: "string \<Rightarrow> bool" where
  \<open>html_safe name = (CHR ''<'' \<notin> set name \<and> CHR 0x22 \<notin> set name)\<close>

text \<open>
  The markup of one list item around a given command text.
\<close>

definition item_with_command :: "string \<Rightarrow> string \<Rightarrow> string" where
  \<open>item_with_command file command =
    ''\<newline>            <li>\<newline>                <button onclick="copyCommand('' @ single_quoted file @
    '')" title="Click to copy command: '' @ command @ ''">Copy</button>\<newline>'' @
    ''                <a href="'' @ file @ ''">'' @ file @ ''</a>\<newline>            </li>\<newline>            ''\<close>

text \<open>Lower case of the ASCII letters, to speak of a suffix written in another case.\<close>

definition ascii_lower :: "char \<Rightarrow> char" where
  \<open>ascii_lower c =
    (case map_of (zip ''ABCDEFGHIJKLMNOPQRSTUVWXYZ'' ''abcdefghijklmnopqrstuvwxyz'') c of
      Some l \<Rightarrow> l
    | None \<Rightarrow> c)\<close>

section \<open>Properties of the string operations\<close>

lemma slice_nth: "slice xs a b = map (\<lambda>k. xs ! k) [a ..< min b (length xs)]"
proof -
  have "take b xs = map (\<lambda>k. xs ! k) [0 ..< min b (length xs)]"
    by (metis length_take map_nth min.commute take_map take_upt add_0 min.cobounded2 map_nth take_all_iff order_refl min_def)
  then have "drop a (take b xs) = map (\<lambda>k. xs ! k) (drop a [0 ..< min b (length xs)])"
    by (simp add: drop_map)
  then show ?thesis by (simp add: slice_def drop_upt)
qed

lemma take_slice: "a \<le> b \<Longrightarrow> take a xs @ slice xs a b = take b xs"
proof -
  assume "a \<le> b"
  then have "take a (take b xs) = take a xs" by (simp add: min_def)
  then show ?thesis unfolding slice_def by (metis append_take_drop_id)
qed

lemma slice_min_length: "slice xs a (min b (length xs)) = slice xs a b"
  by (simp add: slice_def min_def)

lemma length_slice: "length (slice xs a b) = min b (length xs) - a"
  by (simp add: slice_def)


lemma endswith_iff_suffix: "endswith s suf \<longleftrightarrow> suffix suf s"
proof
  assume "endswith s suf"
  then have "s = take (length s - length suf) s @ suf"
    by (metis append_take_drop_id endswith_def)
  then show "suffix suf s" by (metis suffixI)
next
  assume "suffix suf s"
  then obtain p where "s = p @ suf" by (auto simp: suffix_def)
  then show "endswith s suf" by (simp add: endswith_def)
qed

lemma math_ceil_div_real:
  assumes "0 < b"
  shows "int (math_ceil_div a b) = \<lceil>real a / real b\<rceil>"
proof -
  have "\<lceil>real a / real b\<rceil> = \<lceil>of_int (int a) / (of_int (int b) :: real)\<rceil>" by simp
  also have "\<dots> = - (- int a div int b)" by (rule ceiling_divide_eq_div)
  also have "\<dots> = (if int a mod int b = 0 then int a div int b else int a div int b + 1)"
    using assms by (simp add: zdiv_zminus1_eq_if)
  also have "\<dots> = int (math_ceil_div a b)"
  proof -
    have "int a mod int b = 0 \<longleftrightarrow> a mod b = 0"
      by (metis of_nat_mod of_nat_eq_0_iff)
    then show ?thesis by (simp add: math_ceil_div_def of_nat_div)
  qed
  finally show ?thesis by simp
qed

lemma math_ceil_div_bounds:
  assumes "0 < b"
  shows "a \<le> b * math_ceil_div a b" and "b * math_ceil_div a b < a + b"
proof -
  have eq: "a = b * (a div b) + a mod b" by simp
  have lt: "a mod b < b" using assms by simp
  show "a \<le> b * math_ceil_div a b"
  proof (cases "a mod b = 0")
    case True then show ?thesis using eq by (simp add: math_ceil_div_def)
  next
    case False
    have "a \<le> b * (a div b) + b" using eq lt by linarith
    with False show ?thesis by (simp add: math_ceil_div_def)
  qed
  show "b * math_ceil_div a b < a + b"
  proof (cases "a mod b = 0")
    case True then show ?thesis using eq assms by (simp add: math_ceil_div_def)
  next
    case False
    then have "0 < a mod b" by simp
    then have "b * (a div b) + b < a + b" using eq by linarith
    with False show ?thesis by (simp add: math_ceil_div_def)
  qed
qed

section \<open>The partition into columns\<close>

lemma column_files_slice:
  "column_files files i =
     slice files (i * num_per_column files) ((i + 1) * num_per_column files)"
  by (simp add: column_files_def Let_def slice_min_length)

lemma num_per_column_cover: "length files \<le> num_columns * num_per_column files"
  unfolding num_per_column_def
  by (rule math_ceil_div_bounds(1)) (simp add: num_columns_def)

lemma num_per_column_tight:
  "num_columns * num_per_column files < length files + num_columns"
  unfolding num_per_column_def
  by (rule math_ceil_div_bounds(2)) (simp add: num_columns_def)

lemma concat_columns_take:
  "concat (map (column_files files) [0..<n]) = take (n * num_per_column files) files"
proof (induction n)
  case 0
  show ?case by simp
next
  case (Suc n)
  have "take (n * num_per_column files) files @ column_files files n
        = take (Suc n * num_per_column files) files"
    unfolding column_files_slice
    using take_slice [of "n * num_per_column files" "(n + 1) * num_per_column files" files]
    by simp
  with Suc show ?case by simp
qed

lemma concat_columns: "concat (map (column_files files) [0..<num_columns]) = files"
  using num_per_column_cover [of files] by (simp add: concat_columns_take)

lemma column_files_nth:
  "column_files files i =
     map (\<lambda>k. files ! k)
       [i * num_per_column files ..< min ((i + 1) * num_per_column files) (length files)]"
  unfolding column_files_slice by (rule slice_nth)

lemma length_column_files:
  "length (column_files files i) =
     min ((i + 1) * num_per_column files) (length files) - i * num_per_column files"
  by (simp add: column_files_slice length_slice)

lemma length_column_files_le: "length (column_files files i) \<le> num_per_column files"
  by (simp add: length_column_files)

lemma short_column_then_empty:
  assumes "i < j" and "length (column_files files i) < num_per_column files"
  shows "column_files files j = []"
proof -
  let ?c = "num_per_column files"
  have "length files < (i + 1) * ?c"
  proof (rule ccontr)
    assume "\<not> length files < (i + 1) * ?c"
    then have "length (column_files files i) = ?c" by (simp add: length_column_files min_def)
    with assms(2) show False by simp
  qed
  moreover have "(i + 1) * ?c \<le> j * ?c" using assms(1) by (intro mult_le_mono1) simp
  ultimately have "length (column_files files j) = 0" by (simp add: length_column_files)
  then show ?thesis by simp
qed

lemma index_in_one_column:
  assumes "k < length files"
  shows "\<exists>!i. i < num_columns \<and> i * num_per_column files \<le> k
            \<and> k < min ((i + 1) * num_per_column files) (length files)"
proof -
  let ?c = "num_per_column files"
  have cpos: "0 < ?c"
  proof (rule ccontr)
    assume "\<not> 0 < ?c"
    with num_per_column_cover [of files] assms show False by simp
  qed
  have in_col: "i * ?c \<le> k \<and> k < (i + 1) * ?c \<longleftrightarrow> i = k div ?c" for i
  proof
    assume h: "i * ?c \<le> k \<and> k < (i + 1) * ?c"
    then have "i \<le> k div ?c" using cpos by (simp add: less_eq_div_iff_mult_less_eq)
    moreover have "k div ?c < i + 1" using h cpos by (simp add: div_less_iff_less_mult)
    ultimately show "i = k div ?c" by simp
  next
    assume "i = k div ?c"
    moreover have "k div ?c * ?c \<le> k" by simp
    moreover have "k < ?c + (k div ?c) * ?c" using cpos by (rule dividend_less_div_times)
    ultimately show "i * ?c \<le> k \<and> k < (i + 1) * ?c" by simp
  qed
  have "k < num_columns * ?c" using assms num_per_column_cover [of files] by simp
  then have "k div ?c < num_columns" using cpos by (simp add: div_less_iff_less_mult mult.commute)
  with in_col assms show ?thesis by (intro ex1I [of _ "k div ?c"]) auto
qed

lemma sum_column_lengths:
  "sum_list (map (\<lambda>i. length (column_files files i)) [0..<num_columns]) = length files"
proof -
  have "length (concat (map (column_files files) [0..<num_columns])) = length files"
    by (simp only: concat_columns)
  then show ?thesis by (simp add: length_concat comp_def)
qed

text \<open>
  Claim C1. With \<open>F\<close> files and three columns, the column size is \<open>\<lceil>F / 3\<rceil>\<close>;
  column \<open>i\<close> holds the files at the indices from \<open>i * \<lceil>F / 3\<rceil>\<close> up to, not
  including, \<open>min ((i + 1) * \<lceil>F / 3\<rceil>) F\<close>; the columns in order concatenate to the
  input list; every index of the list lies in the range of exactly one column; no column
  is longer than \<open>\<lceil>F / 3\<rceil>\<close>, a column shorter than that is followed by empty columns
  only; and the column sizes add up to \<open>F\<close>.
\<close>

theorem partition_correct:
  "int (num_per_column files) = \<lceil>real (length files) / real num_columns\<rceil>
   \<and> (\<forall>i<num_columns. column_files files i =
          map (\<lambda>k. files ! k)
            [i * num_per_column files ..<
               min ((i + 1) * num_per_column files) (length files)])
   \<and> concat (map (column_files files) [0..<num_columns]) = files
   \<and> (\<forall>k<length files. \<exists>!i. i < num_columns \<and> i * num_per_column files \<le> k
          \<and> k < min ((i + 1) * num_per_column files) (length files))
   \<and> (\<forall>i<num_columns. length (column_files files i) \<le> num_per_column files)
   \<and> (\<forall>i j. i < j \<and> j < num_columns
          \<and> length (column_files files i) < num_per_column files
          \<longrightarrow> column_files files j = [])
   \<and> sum_list (map (\<lambda>i. length (column_files files i)) [0..<num_columns]) = length files"
proof (intro conjI allI impI)
  show "int (num_per_column files) = \<lceil>real (length files) / real num_columns\<rceil>"
    unfolding num_per_column_def by (rule math_ceil_div_real) (simp add: num_columns_def)
next
  fix i
  show "column_files files i =
          map (\<lambda>k. files ! k)
            [i * num_per_column files ..<
               min ((i + 1) * num_per_column files) (length files)]"
    by (rule column_files_nth)
next
  show "concat (map (column_files files) [0..<num_columns]) = files"
    by (rule concat_columns)
next
  fix k assume "k < length files"
  then show "\<exists>!i. i < num_columns \<and> i * num_per_column files \<le> k
          \<and> k < min ((i + 1) * num_per_column files) (length files)"
    by (rule index_in_one_column)
next
  fix i
  show "length (column_files files i) \<le> num_per_column files"
    by (rule length_column_files_le)
next
  fix i j
  assume "i < j \<and> j < num_columns \<and> length (column_files files i) < num_per_column files"
  then show "column_files files j = []"
    using short_column_then_empty by blast
next
  show "sum_list (map (\<lambda>i. length (column_files files i)) [0..<num_columns]) = length files"
    by (rule sum_column_lengths)
qed

text \<open>Four files: two columns of two files and an empty third column.\<close>

theorem partition_correct_witness:
  \<open>num_per_column [''a.sh'', ''b.py'', ''c.ps1'', ''d.sh''] = 2
   \<and> column_files [''a.sh'', ''b.py'', ''c.ps1'', ''d.sh''] 0 = [''a.sh'', ''b.py'']
   \<and> column_files [''a.sh'', ''b.py'', ''c.ps1'', ''d.sh''] 1 = [''c.ps1'', ''d.sh'']
   \<and> column_files [''a.sh'', ''b.py'', ''c.ps1'', ''d.sh''] 2 = []
   \<and> concat (map (column_files [''a.sh'', ''b.py'', ''c.ps1'', ''d.sh'']) [0..<num_columns])
       = [''a.sh'', ''b.py'', ''c.ps1'', ''d.sh'']\<close>
proof -
  let ?fs = \<open>[''a.sh'', ''b.py'', ''c.ps1'', ''d.sh'']\<close>
  note t = partition_correct [of ?fs]
  have c: "num_per_column ?fs = 2"
    by (simp add: num_per_column_def math_ceil_div_def num_columns_def)
  have n: "(0::nat) < num_columns" "(1::nat) < num_columns" "(2::nat) < num_columns"
    by (simp_all add: num_columns_def)
  from t have cols: "\<forall>i<num_columns. column_files ?fs i =
      map (\<lambda>k. ?fs ! k) [i * num_per_column ?fs ..< min ((i + 1) * num_per_column ?fs) (length ?fs)]"
    by blast
  have c0: "column_files ?fs 0 = [''a.sh'', ''b.py'']"
    using cols n(1) c by (simp add: upt_rec)
  have c1: "column_files ?fs 1 = [''c.ps1'', ''d.sh'']"
    using cols n(2) c by (simp add: upt_rec)
  have c2: "column_files ?fs 2 = []"
    using cols n(3) c by (simp add: upt_rec)
  from t have cc: "concat (map (column_files ?fs) [0..<num_columns]) = ?fs" by blast
  from c c0 c1 c2 cc show ?thesis by blast
qed

section \<open>Classification by suffix\<close>

lemma endswith_same_string:
  assumes "endswith s a" and "endswith s b"
  shows "endswith a b \<or> endswith b a"
  using assms suffix_same_cases [of a s b] by (auto simp: endswith_iff_suffix)

lemma endswith_append_short:
  assumes "length r \<le> length v"
  shows "endswith (stem @ v) r \<longleftrightarrow> endswith v r"
  using assms by (simp add: endswith_def)

lemma endswith_exclusive:
  assumes "endswith s a" and "\<not> endswith a b" and "\<not> endswith b a"
  shows "\<not> endswith s b"
  using assms endswith_same_string by blast

lemma recognized_kind:
  \<open>endswith_any file [''.sh'', ''.bash'', ''.py'', ''.pyw'', ''.ps1''] \<longleftrightarrow> file_kind file \<noteq> Unsupported\<close>
  by (auto simp: file_kind_def endswith_any_def)

lemma shell_kind:
  \<open>endswith file ''.sh'' \<or> endswith file ''.bash'' \<Longrightarrow> file_kind file = Shell\<close>
  by (auto simp: file_kind_def endswith_any_def)

lemma python_kind:
  assumes \<open>endswith file ''.py'' \<or> endswith file ''.pyw''\<close>
  shows "file_kind file = Python"
proof -
  have \<open>\<not> endswith file ''.sh'' \<and> \<not> endswith file ''.bash''\<close>
    using assms
  proof
    assume \<open>endswith file ''.py''\<close>
    then show ?thesis by (intro conjI; elim endswith_exclusive; simp add: endswith_def)
  next
    assume \<open>endswith file ''.pyw''\<close>
    then show ?thesis by (intro conjI; elim endswith_exclusive; simp add: endswith_def)
  qed
  with assms show ?thesis by (auto simp: file_kind_def endswith_any_def)
qed

lemma powershell_kind:
  assumes \<open>endswith file ''.ps1''\<close>
  shows "file_kind file = PowerShell"
proof -
  have \<open>\<not> endswith file ''.sh'' \<and> \<not> endswith file ''.bash''
       \<and> \<not> endswith file ''.py'' \<and> \<not> endswith file ''.pyw''\<close>
    using assms by (intro conjI; elim endswith_exclusive; simp add: endswith_def)
  with assms show ?thesis by (auto simp: file_kind_def endswith_any_def)
qed

lemma suffixes_exclusive:
  assumes \<open>a \<in> set [''.sh'', ''.bash'', ''.py'', ''.pyw'', ''.ps1'']\<close>
    and \<open>b \<in> set [''.sh'', ''.bash'', ''.py'', ''.pyw'', ''.ps1'']\<close>
    and "endswith s a" and "endswith s b"
  shows "a = b"
proof (rule ccontr)
  assume "a \<noteq> b"
  with assms(1,2) have "\<not> endswith a b \<and> \<not> endswith b a"
    by (auto simp: endswith_def)
  with assms(3,4) endswith_same_string show False by blast
qed


lemma files_of_iff:
  \<open>file \<in> set (files_of entries) \<longleftrightarrow>
     file \<in> set entries \<and>
     (endswith file ''.sh'' \<or> endswith file ''.bash'' \<or> endswith file ''.py''
       \<or> endswith file ''.pyw'' \<or> endswith file ''.ps1'')\<close>
  by (auto simp: files_of_def endswith_any_def)

lemma files_of_drop_entry:
  assumes \<open>\<not> (endswith e ''.sh'' \<or> endswith e ''.bash'' \<or> endswith e ''.py''
       \<or> endswith e ''.pyw'' \<or> endswith e ''.ps1'')\<close>
  shows "files_of (before @ e # after) = files_of (before @ after)"
  using assms by (simp add: files_of_def endswith_any_def)

lemma set_column_files: "set (column_files files i) \<subseteq> set files"
proof -
  have "set (drop a (take b files)) \<subseteq> set files" for a b
    by (meson set_drop_subset set_take_subset subset_trans)
  then show ?thesis by (simp add: column_files_slice slice_def)
qed

lemma ascii_lower_suffixes:
  assumes \<open>r \<in> set [''.sh'', ''.bash'', ''.py'', ''.pyw'', ''.ps1'']\<close>
  shows "map ascii_lower r = r"
  using assms by (auto simp: ascii_lower_def)

lemma endswith_map: "endswith s r \<Longrightarrow> endswith (map f s) (map f r)"
  by (simp add: endswith_iff_suffix map_mono_suffix)

lemma endswith_same_length: "endswith v r \<Longrightarrow> length r = length v \<Longrightarrow> v = r"
  by (simp add: endswith_def)

lemma case_variant_not_recognized:
  assumes low: \<open>map ascii_lower v \<in> set [''.sh'', ''.bash'', ''.py'', ''.pyw'', ''.ps1'']\<close>
    and variant: "v \<noteq> map ascii_lower v"
    and r: \<open>r \<in> set [''.sh'', ''.bash'', ''.py'', ''.pyw'', ''.ps1'']\<close>
  shows "\<not> endswith (stem @ v) r"
proof
  assume e: "endswith (stem @ v) r"
  then have "endswith (map ascii_lower (stem @ v)) (map ascii_lower r)"
    by (rule endswith_map)
  then have "endswith (map ascii_lower stem @ map ascii_lower v) r"
    using r by (simp add: ascii_lower_suffixes)
  moreover have "endswith (map ascii_lower stem @ map ascii_lower v) (map ascii_lower v)"
    by (simp add: endswith_def)
  ultimately have eq: "r = map ascii_lower v"
    using r low suffixes_exclusive by blast
  then have "length r = length v" by simp
  moreover from this e have "endswith v r" by (simp add: endswith_append_short)
  ultimately have "v = r" by (rule endswith_same_length [rotated])
  with eq variant show False by simp
qed

text \<open>
  Claim C2. For a name ending in \<open>.sh\<close> or \<open>.bash\<close> the list item is the item markup
  whose command text is \<open>curl -sSL\<close>, a space, the base URL followed by the file name
  in single quotes, and \<open>| bash\<close>; for \<open>.py\<close> or \<open>.pyw\<close> the same with
  \<open>| python3\<close>; for \<open>.ps1\<close> the fetch is \<open>Invoke-RestMethod\<close> and the command ends
  \<open>| Invoke-Expression\<close>. The command text is the one written into the button's
  \<open>title\<close>.
\<close>

theorem install_command_by_suffix:
  \<open>(endswith file ''.sh'' \<or> endswith file ''.bash'' \<longrightarrow>
      list_item file = item_with_command file
        (''curl -sSL '' @ single_quoted (''https://edoardotosin.com/tools/'' @ file) @ '' | bash''))
   \<and> (endswith file ''.py'' \<or> endswith file ''.pyw'' \<longrightarrow>
      list_item file = item_with_command file
        (''curl -sSL '' @ single_quoted (''https://edoardotosin.com/tools/'' @ file) @ '' | python3''))
   \<and> (endswith file ''.ps1'' \<longrightarrow>
      list_item file = item_with_command file
        (''Invoke-RestMethod '' @ single_quoted (''https://edoardotosin.com/tools/'' @ file)
          @ '' | Invoke-Expression''))\<close>
proof (intro conjI impI)
  assume \<open>endswith file ''.sh'' \<or> endswith file ''.bash''\<close>
  then have "file_kind file = Shell" by (rule shell_kind)
  then show \<open>list_item file = item_with_command file
        (''curl -sSL '' @ single_quoted (''https://edoardotosin.com/tools/'' @ file) @ '' | bash'')\<close>
    by (simp add: list_item_def item_with_command_def single_quoted_def curl_linux_def base_url_def)
next
  assume \<open>endswith file ''.py'' \<or> endswith file ''.pyw''\<close>
  then have "file_kind file = Python" by (rule python_kind)
  then show \<open>list_item file = item_with_command file
        (''curl -sSL '' @ single_quoted (''https://edoardotosin.com/tools/'' @ file) @ '' | python3'')\<close>
    by (simp add: list_item_def item_with_command_def single_quoted_def curl_linux_def base_url_def)
next
  assume \<open>endswith file ''.ps1''\<close>
  then have "file_kind file = PowerShell" by (rule powershell_kind)
  then show \<open>list_item file = item_with_command file
        (''Invoke-RestMethod '' @ single_quoted (''https://edoardotosin.com/tools/'' @ file)
          @ '' | Invoke-Expression'')\<close>
    by (simp add: list_item_def item_with_command_def single_quoted_def curl_win_def base_url_def)
qed

text \<open>
  The three commands for \<open>x.sh\<close>, \<open>x.pyw\<close> and \<open>x.ps1\<close>, character for character.
\<close>

theorem install_command_by_suffix_witness:
  \<open>list_item ''x.sh'' = item_with_command ''x.sh''
      ''curl -sSL 'https://edoardotosin.com/tools/x.sh' | bash''
   \<and> list_item ''x.pyw'' = item_with_command ''x.pyw''
      ''curl -sSL 'https://edoardotosin.com/tools/x.pyw' | python3''
   \<and> list_item ''x.ps1'' = item_with_command ''x.ps1''
      ''Invoke-RestMethod 'https://edoardotosin.com/tools/x.ps1' | Invoke-Expression''\<close>
proof -
  have a: \<open>endswith ''x.sh'' ''.sh'' \<or> endswith ''x.sh'' ''.bash''\<close>
    by (simp add: endswith_def)
  have b: \<open>endswith ''x.pyw'' ''.py'' \<or> endswith ''x.pyw'' ''.pyw''\<close>
    by (simp add: endswith_def)
  have c: \<open>endswith ''x.ps1'' ''.ps1''\<close>
    by (simp add: endswith_def)
  from install_command_by_suffix [of \<open>''x.sh''\<close>] a
       install_command_by_suffix [of \<open>''x.pyw''\<close>] b
       install_command_by_suffix [of \<open>''x.ps1''\<close>] c
  show ?thesis by (simp add: single_quoted_def)
qed

section \<open>The run: failures, the write and determinism\<close>

lemma index_path: \<open>os_path_join scripts_dir ''index.html'' = ''./scripts/index.html''\<close>
  by (simp add: os_path_join_def scripts_dir_def endswith_def)

lemma write_file_cases:
  "write_file path content w =
    (case open_failure w path of
      Some e \<Rightarrow> (w, Inl e)
    | None \<Rightarrow>
        (case write_failure w path content of
          Some (e, n) \<Rightarrow> (w\<lparr>file_contents := (file_contents w)(path \<mapsto> take n content)\<rparr>, Inl e)
        | None \<Rightarrow> (w\<lparr>file_contents := (file_contents w)(path \<mapsto> content)\<rparr>, Inr ())))"
  by (simp add: write_file_def)

lemma try_body_success:
  assumes "try_body w = (w', Inr u)"
  shows \<open>\<exists>entries. listdir_result w scripts_dir = Inr entries
      \<and> open_failure w ''./scripts/index.html'' = None
      \<and> write_failure w ''./scripts/index.html''
            (html_content (generate_list_items (files_of entries))) = None
      \<and> w' = w\<lparr>file_contents := (file_contents w)(''./scripts/index.html'' \<mapsto>
                    html_content (generate_list_items (files_of entries))),
                stdout := stdout w @ [''HTML file generated successfully!'']\<rparr>\<close>
  using assms
  by (auto simp: try_body_def index_path write_file_def print_line_def Let_def
           split: sum.splits option.splits prod.splits)

lemma try_body_failure:
  assumes "try_body w = (w', Inl e)"
  shows \<open>(listdir_result w scripts_dir = Inl e \<and> w' = w)
    \<or> (\<exists>entries. listdir_result w scripts_dir = Inr entries
          \<and> open_failure w ''./scripts/index.html'' = Some e \<and> w' = w)
    \<or> (\<exists>entries n. listdir_result w scripts_dir = Inr entries
          \<and> open_failure w ''./scripts/index.html'' = None
          \<and> write_failure w ''./scripts/index.html''
               (html_content (generate_list_items (files_of entries))) = Some (e, n)
          \<and> w' = w\<lparr>file_contents := (file_contents w)(''./scripts/index.html'' \<mapsto>
                    take n (html_content (generate_list_items (files_of entries))))\<rparr>)\<close>
  using assms
  by (auto simp: try_body_def index_path write_file_def print_line_def Let_def
           split: sum.splits option.splits prod.splits)

lemma try_body_failure_stdout:
  assumes "try_body w = (w', Inl e)"
  shows "stdout w' = stdout w"
  using try_body_failure [OF assms] by auto

text \<open>
  Claim C6. Whenever the listing, the opening of the output file or the write raises an
  exception \<open>e\<close> of a class derived from \<^verbatim>\<open>Exception\<close> (every operating system error
  is one), the run ends normally with exit status 0, prints the one line
  \<open>Error: \<close> followed by \<^verbatim>\<open>str(e)\<close>, and does not print the success message.
  Rendering itself raises nothing.
\<close>

theorem failure_caught:
  assumes "is_Exception (exc_class e)"
    and \<open>listdir_result w scripts_dir = Inl e
      \<or> (\<exists>entries. listdir_result w scripts_dir = Inr entries
            \<and> open_failure w ''./scripts/index.html'' = Some e)
      \<or> (\<exists>entries n. listdir_result w scripts_dir = Inr entries
            \<and> open_failure w ''./scripts/index.html'' = None
            \<and> write_failure w ''./scripts/index.html''
                 (html_content (generate_list_items (files_of entries))) = Some (e, n))\<close>
  shows \<open>snd (main w) = Finished
    \<and> exit_status (snd (main w)) = 0
    \<and> stdout (fst (main w)) = stdout w @ [''Error: '' @ exc_str e]
    \<and> ''HTML file generated successfully!'' \<notin> set (drop (length (stdout w)) (stdout (fst (main w))))\<close>
proof -
  from assms(2) obtain w' where body: "try_body w = (w', Inl e)" and out: "stdout w' = stdout w"
    by (auto simp: try_body_def index_path write_file_def Let_def)
  from body assms(1) have m: \<open>main w = (print_line (''Error: '' @ exc_str e) w', Finished)\<close>
    by (simp add: main_def)
  then show ?thesis using out by (simp add: print_line_def)
qed

text \<open>
  A missing directory and an output file that cannot be opened.
\<close>

theorem failure_caught_witness:
  \<open>snd (main world_no_directory) = Finished
   \<and> exit_status (snd (main world_no_directory)) = 0
   \<and> stdout (fst (main world_no_directory))
       = [''Error: [Errno 2] No such file or directory: '' @ single_quoted ''./scripts'']
   \<and> stdout (fst (main (world_read_only [''a.sh''])))
       = [''Error: [Errno 13] Permission denied: '' @ single_quoted ''./scripts/index.html'']\<close>
proof -
  let ?e = \<open>Raise FileNotFoundError (''[Errno 2] No such file or directory: '' @ single_quoted ''./scripts'')\<close>
  let ?p = \<open>Raise PermissionError (''[Errno 13] Permission denied: '' @ single_quoted ''./scripts/index.html'')\<close>
  have c1: "is_Exception (exc_class ?e)" by simp
  have l1: "listdir_result world_no_directory scripts_dir = Inl ?e"
    by (simp add: world_no_directory_def scripts_dir_def)
  have c2: "is_Exception (exc_class ?p)" by simp
  have l2: \<open>\<exists>entries. listdir_result (world_read_only [''a.sh'']) scripts_dir = Inr entries
            \<and> open_failure (world_read_only [''a.sh'']) ''./scripts/index.html'' = Some ?p\<close>
    by (simp add: world_read_only_def)
  from failure_caught [OF c1, of world_no_directory] l1
  have a: \<open>snd (main world_no_directory) = Finished
    \<and> exit_status (snd (main world_no_directory)) = 0
    \<and> stdout (fst (main world_no_directory)) = stdout world_no_directory @ [''Error: '' @ exc_str ?e]\<close>
    by blast
  from failure_caught [OF c2, of \<open>world_read_only [''a.sh'']\<close>] l2
  have b: \<open>stdout (fst (main (world_read_only [''a.sh''])))
      = stdout (world_read_only [''a.sh'']) @ [''Error: '' @ exc_str ?p]\<close>
    by blast
  have s1: "stdout world_no_directory = []" by (simp add: world_no_directory_def)
  have s2: \<open>stdout (world_read_only [''a.sh'']) = []\<close> by (simp add: world_read_only_def)
  from a b s1 s2 show ?thesis by simp
qed

text \<open>
  Claim C9. When the listing, the opening and the write all succeed, the run leaves the
  world as it was but for two changes: the file \<open>./scripts/index.html\<close> (the name
  \<open>index.html\<close> joined to the scanned directory) holds the rendered document, whatever
  it held before, and the one line \<open>HTML file generated successfully!\<close> is added to
  standard output. Every other file is unchanged.
\<close>

theorem write_effect:
  assumes "listdir_result w scripts_dir = Inr entries"
    and \<open>open_failure w ''./scripts/index.html'' = None\<close>
    and \<open>write_failure w ''./scripts/index.html''
           (html_content (generate_list_items (files_of entries))) = None\<close>
  shows \<open>main w =
      (w\<lparr>file_contents := (file_contents w)(''./scripts/index.html'' \<mapsto>
                    html_content (generate_list_items (files_of entries))),
         stdout := stdout w @ [''HTML file generated successfully!'']\<rparr>, Finished)
    \<and> os_path_join scripts_dir ''index.html'' = ''./scripts/index.html''
    \<and> file_contents (fst (main w)) ''./scripts/index.html''
        = Some (html_content (generate_list_items (files_of entries)))
    \<and> (\<forall>p. p \<noteq> ''./scripts/index.html'' \<longrightarrow> file_contents (fst (main w)) p = file_contents w p)
    \<and> stdout (fst (main w)) = stdout w @ [''HTML file generated successfully!'']
    \<and> exit_status (snd (main w)) = 0\<close>
proof -
  have m: \<open>main w =
      (w\<lparr>file_contents := (file_contents w)(''./scripts/index.html'' \<mapsto>
                    html_content (generate_list_items (files_of entries))),
         stdout := stdout w @ [''HTML file generated successfully!'']\<rparr>, Finished)\<close>
    using assms
    by (simp add: main_def try_body_def index_path write_file_def print_line_def Let_def)
  show ?thesis unfolding m by (simp add: index_path)
qed

text \<open>
  A directory with an older \<open>index.html\<close> and the script \<open>a.sh\<close>: the index is
  replaced, \<open>a.sh\<close> is untouched.
\<close>

theorem write_effect_witness:
  \<open>file_contents (fst (main (world_ok [''a.sh'', ''d.txt'']))) ''./scripts/index.html''
      = Some (html_content (generate_list_items [''a.sh'']))
   \<and> file_contents (fst (main (world_ok [''a.sh'', ''d.txt'']))) ''./scripts/a.sh'' = Some ''echo a''
   \<and> stdout (fst (main (world_ok [''a.sh'', ''d.txt''])))  = [''HTML file generated successfully!'']\<close>
proof -
  let ?w = \<open>world_ok [''a.sh'', ''d.txt'']\<close>
  have h1: \<open>listdir_result ?w scripts_dir = Inr [''a.sh'', ''d.txt'']\<close>
    and h2: \<open>open_failure ?w ''./scripts/index.html'' = None\<close>
    and h3: \<open>write_failure ?w ''./scripts/index.html''
           (html_content (generate_list_items (files_of [''a.sh'', ''d.txt'']))) = None\<close>
    by (simp_all add: world_ok_def)
  note t = write_effect [OF h1 h2 h3]
  have fs: \<open>files_of [''a.sh'', ''d.txt''] = [''a.sh'']\<close>
    by (simp add: files_of_def endswith_any_def endswith_def)
  have ne: \<open>''./scripts/a.sh'' \<noteq> ''./scripts/index.html''\<close> by simp
  have a: \<open>file_contents (fst (main ?w)) ''./scripts/index.html''
        = Some (html_content (generate_list_items (files_of [''a.sh'', ''d.txt''])))\<close>
    by (rule t [THEN conjunct2, THEN conjunct2, THEN conjunct1])
  have \<open>\<forall>p. p \<noteq> ''./scripts/index.html'' \<longrightarrow> file_contents (fst (main ?w)) p = file_contents ?w p\<close>
    by (rule t [THEN conjunct2, THEN conjunct2, THEN conjunct2, THEN conjunct1])
  with ne have b: \<open>file_contents (fst (main ?w)) ''./scripts/a.sh'' = file_contents ?w ''./scripts/a.sh''\<close>
    by (elim allE impE)
  have c: \<open>stdout (fst (main ?w)) = stdout ?w @ [''HTML file generated successfully!'']\<close>
    by (rule t [THEN conjunct2, THEN conjunct2, THEN conjunct2, THEN conjunct2, THEN conjunct1])
  have d: \<open>file_contents ?w ''./scripts/a.sh'' = Some ''echo a''\<close> \<open>stdout ?w = []\<close>
    by (simp_all add: world_ok_def)
  from a fs have a': \<open>file_contents (fst (main ?w)) ''./scripts/index.html''
        = Some (html_content (generate_list_items [''a.sh'']))\<close>
    by (simp only:)
  from b d(1) have b': \<open>file_contents (fst (main ?w)) ''./scripts/a.sh'' = Some ''echo a''\<close>
    by (simp only:)
  from c d(2) have c': \<open>stdout (fst (main ?w)) = [''HTML file generated successfully!'']\<close>
    by (simp only: append_Nil)
  from a' b' c' show ?thesis by (intro conjI)
qed

text \<open>
  Claim C5. Two runs whose directory listing returns the same names in the same order,
  and that both succeed, write the same document, the one computed from that listing, and
  print the same lines, whatever else differs between the two runs (other files, an
  earlier \<open>index.html\<close>, earlier output).
\<close>

theorem same_listing_same_document:
  assumes "listdir_result w1 scripts_dir = Inr names"
    and "listdir_result w2 scripts_dir = Inr names"
    and \<open>open_failure w1 ''./scripts/index.html'' = None\<close>
    and \<open>open_failure w2 ''./scripts/index.html'' = None\<close>
    and \<open>write_failure w1 ''./scripts/index.html''
           (html_content (generate_list_items (files_of names))) = None\<close>
    and \<open>write_failure w2 ''./scripts/index.html''
           (html_content (generate_list_items (files_of names))) = None\<close>
  shows \<open>file_contents (fst (main w1)) ''./scripts/index.html''
        = file_contents (fst (main w2)) ''./scripts/index.html''
    \<and> file_contents (fst (main w1)) ''./scripts/index.html''
        = Some (html_content (generate_list_items (files_of names)))
    \<and> drop (length (stdout w1)) (stdout (fst (main w1)))
        = drop (length (stdout w2)) (stdout (fst (main w2)))\<close>
proof -
  have m1: \<open>main w1 =
      (w1\<lparr>file_contents := (file_contents w1)(''./scripts/index.html'' \<mapsto>
                    html_content (generate_list_items (files_of names))),
         stdout := stdout w1 @ [''HTML file generated successfully!'']\<rparr>, Finished)\<close>
    using assms(1,3,5)
    by (simp add: main_def try_body_def index_path write_file_def print_line_def Let_def)
  have m2: \<open>main w2 =
      (w2\<lparr>file_contents := (file_contents w2)(''./scripts/index.html'' \<mapsto>
                    html_content (generate_list_items (files_of names))),
         stdout := stdout w2 @ [''HTML file generated successfully!'']\<rparr>, Finished)\<close>
    using assms(2,4,6)
    by (simp add: main_def try_body_def index_path write_file_def print_line_def Let_def)
  show ?thesis unfolding m1 m2 by simp
qed

text \<open>
  The same listing on a file system with an older index and on an empty one.
\<close>

theorem same_listing_same_document_witness:
  \<open>file_contents (fst (main (world_ok [''a.sh'', ''b.py''])))  ''./scripts/index.html''
     = file_contents (fst (main ((world_ok [''a.sh'', ''b.py''])
          \<lparr>file_contents := Map.empty, stdout := [''earlier line'']\<rparr>))) ''./scripts/index.html''\<close>
proof -
  let ?w1 = \<open>world_ok [''a.sh'', ''b.py'']\<close>
  let ?w2 = \<open>(world_ok [''a.sh'', ''b.py''])\<lparr>file_contents := Map.empty, stdout := [''earlier line'']\<rparr>\<close>
  have \<open>listdir_result ?w1 scripts_dir = Inr [''a.sh'', ''b.py'']\<close>
    \<open>listdir_result ?w2 scripts_dir = Inr [''a.sh'', ''b.py'']\<close>
    \<open>open_failure ?w1 ''./scripts/index.html'' = None\<close>
    \<open>open_failure ?w2 ''./scripts/index.html'' = None\<close>
    \<open>write_failure ?w1 ''./scripts/index.html''
           (html_content (generate_list_items (files_of [''a.sh'', ''b.py'']))) = None\<close>
    \<open>write_failure ?w2 ''./scripts/index.html''
           (html_content (generate_list_items (files_of [''a.sh'', ''b.py'']))) = None\<close>
    by (simp_all add: world_ok_def)
  from same_listing_same_document [OF this] show ?thesis by (rule conjunct1)
qed

section \<open>The generated document\<close>

lemma upt_columns: "[0..<num_columns] = [0, 1, 2]"
  by (simp add: num_columns_def upt_rec)

lemma column_files_empty: "column_files [] i = []"
  by (simp add: column_files_def slice_def)

lemma generate_list_items_empty:
  \<open>generate_list_items [] =
     ''<div style="float:left; width:33%;"><ul></ul></div>\<newline>'' @
     ''<div style="float:left; width:33%;"><ul></ul></div>\<newline>'' @
     ''<div style="float:left; width:33%;"><ul></ul></div>''\<close>
  by (simp add: generate_list_items_def columns_def upt_columns column_files_empty column_items_def)

lemma count_occ_skip:
  assumes "a \<notin> set xs"
  shows "count_occ (a # p) (xs @ ys) = count_occ (a # p) ys"
  using assms by (induction xs) auto

lemma count_occ_none:
  assumes "a \<notin> set xs"
  shows "count_occ (a # p) xs = 0"
  using assms by (induction xs) auto

lemma prefix_across_boundary:
  assumes "c \<notin> set (tl pat)"
  shows "prefix pat (x # xs @ c # ys) \<longleftrightarrow> prefix pat (x # xs)"
proof
  assume "prefix pat (x # xs @ c # ys)"
  then have "prefix pat ((x # xs) @ c # ys)" by simp
  then consider "prefix pat (x # xs)" | us where "pat = (x # xs) @ us" "prefix us (c # ys)"
    unfolding prefix_append by blast
  then show "prefix pat (x # xs)"
  proof cases
    case 1
    then show ?thesis .
  next
    case 2
    show ?thesis
    proof (cases us)
      case Nil
      with 2 show ?thesis by simp
    next
      case (Cons u us')
      with 2 have "u = c" by simp
      with 2 Cons have "c \<in> set (tl pat)" by simp
      with assms show ?thesis by simp
    qed
  qed
next
  assume "prefix pat (x # xs)"
  then have "prefix pat ((x # xs) @ c # ys)" by (rule prefix_prefix)
  then show "prefix pat (x # xs @ c # ys)" by simp
qed

lemma count_occ_append:
  assumes "c \<notin> set (tl pat)"
  shows "count_occ pat (xs @ c # ys) = count_occ pat xs + count_occ pat (c # ys)"
proof (induction xs)
  case Nil
  show ?case by simp
next
  case (Cons x xs)
  have "prefix pat (x # xs @ c # ys) \<longleftrightarrow> prefix pat (x # xs)"
    using assms by (rule prefix_across_boundary)
  with Cons show ?case by simp
qed

lemma join_Cons: "join sep (x # xs) = (if xs = [] then x else x @ sep @ join sep xs)"
  by (cases xs) simp_all

lemma count_occ_join:
  assumes \<open>CHR ''\<newline>'' \<notin> set pat\<close> and "pat \<noteq> []"
  shows \<open>count_occ pat (join ''\<newline>'' xs) = sum_list (map (count_occ pat) xs)\<close>
proof (induction xs)
  case Nil
  show ?case by simp
next
  case (Cons x xs)
  from assms have nl: \<open>CHR ''\<newline>'' \<notin> set (tl pat)\<close>
    by (cases pat) auto
  from assms have np: \<open>\<not> prefix pat (CHR ''\<newline>'' # zs)\<close> for zs
    by (cases pat) auto
  show ?case
  proof (cases "xs = []")
    case True
    then show ?thesis by simp
  next
    case False
    then have \<open>join ''\<newline>'' (x # xs) = x @ CHR ''\<newline>'' # join ''\<newline>'' xs\<close>
      by (simp add: join_Cons)
    then show ?thesis
      using Cons np by (simp add: count_occ_append [OF nl])
  qed
qed

lemma count_li_item:
  assumes \<open>CHR ''<'' \<notin> set f\<close>
  shows \<open>count_occ ''<li>'' (list_item f) = 1\<close>
  using assms
  by (cases "file_kind f")
     (simp_all add: list_item_def curl_linux_def curl_win_def base_url_def count_occ_skip)

lemma count_ul_item:
  assumes \<open>CHR ''<'' \<notin> set f\<close>
  shows \<open>count_occ ''<ul>'' (list_item f) = 0\<close>
  using assms
  by (cases "file_kind f")
     (simp_all add: list_item_def curl_linux_def curl_win_def base_url_def count_occ_skip)

lemma count_li_document:
  \<open>count_occ ''<li>'' (html_content list_items) = count_occ ''<li>'' list_items\<close>
  by (simp add: html_content_def curl_linux_def curl_win_def base_url_def count_occ_append)

lemma count_ul_document:
  \<open>count_occ ''<ul>'' (html_content list_items) = count_occ ''<ul>'' list_items\<close>
  by (simp add: html_content_def curl_linux_def curl_win_def base_url_def count_occ_append)

lemma count_empty_ul_document:
  \<open>count_occ ''<ul></ul>'' (html_content list_items) = count_occ ''<ul></ul>'' list_items\<close>
  by (simp add: html_content_def curl_linux_def curl_win_def base_url_def count_occ_append)

lemma sum_list_const: "(\<And>x. x \<in> set xs \<Longrightarrow> f x = (c::nat)) \<Longrightarrow> sum_list (map f xs) = c * length xs"
  by (induction xs) simp_all

lemma count_li_column_items:
  assumes \<open>\<forall>f \<in> set col. CHR ''<'' \<notin> set f\<close>
  shows \<open>count_occ ''<li>'' (column_items col) = length col\<close>
proof -
  have \<open>count_occ ''<li>'' (column_items col) = sum_list (map (count_occ ''<li>'') (map list_item col))\<close>
    unfolding column_items_def by (rule count_occ_join) simp_all
  also have \<open>\<dots> = sum_list (map (\<lambda>f. count_occ ''<li>'' (list_item f)) col)\<close>
    by (simp add: comp_def)
  also have \<open>\<dots> = 1 * length col\<close>
    using assms by (intro sum_list_const) (simp add: count_li_item)
  finally show ?thesis by simp
qed

lemma count_ul_column_items:
  assumes \<open>\<forall>f \<in> set col. CHR ''<'' \<notin> set f\<close>
  shows \<open>count_occ ''<ul>'' (column_items col) = 0\<close>
proof -
  have \<open>count_occ ''<ul>'' (column_items col) = sum_list (map (count_occ ''<ul>'') (map list_item col))\<close>
    unfolding column_items_def by (rule count_occ_join) simp_all
  also have \<open>\<dots> = sum_list (map (\<lambda>f. count_occ ''<ul>'' (list_item f)) col)\<close>
    by (simp add: comp_def)
  also have \<open>\<dots> = 0 * length col\<close>
    using assms by (intro sum_list_const) (simp add: count_ul_item)
  finally show ?thesis by simp
qed

lemma generate_list_items_columns:
  \<open>generate_list_items files =
     ''<div style="float:left; width:33%;"><ul>'' @ column_items (column_files files 0) @ ''</ul></div>\<newline>'' @
     ''<div style="float:left; width:33%;"><ul>'' @ column_items (column_files files 1) @ ''</ul></div>\<newline>'' @
     ''<div style="float:left; width:33%;"><ul>'' @ column_items (column_files files 2) @ ''</ul></div>''\<close>
  by (simp add: generate_list_items_def columns_def upt_columns)

lemma column_lengths_three:
  "length (column_files files 0) + length (column_files files 1) + length (column_files files 2)
     = length files"
  using sum_column_lengths [of files] by (simp add: upt_columns)

lemma count_li_generate_list_items:
  assumes \<open>\<forall>f \<in> set files. CHR ''<'' \<notin> set f\<close>
  shows \<open>count_occ ''<li>'' (generate_list_items files) = length files\<close>
proof -
  have col: \<open>count_occ ''<li>'' (column_items (column_files files i)) = length (column_files files i)\<close> for i
    using assms set_column_files [of files i] by (intro count_li_column_items) blast
  have \<open>count_occ ''<li>'' (generate_list_items files) =
      length (column_files files 0) + length (column_files files 1) + length (column_files files 2)\<close>
    unfolding generate_list_items_columns
    by (simp add: count_occ_append col)
  then show ?thesis using column_lengths_three [of files] by simp
qed

lemma count_ul_generate_list_items:
  assumes \<open>\<forall>f \<in> set files. CHR ''<'' \<notin> set f\<close>
  shows \<open>count_occ ''<ul>'' (generate_list_items files) = 3\<close>
proof -
  have col: \<open>count_occ ''<ul>'' (column_items (column_files files i)) = 0\<close> for i
    using assms set_column_files [of files i] by (intro count_ul_column_items) blast
  show ?thesis
    unfolding generate_list_items_columns
    by (simp add: count_occ_append col)
qed

lemma scan_text_skip:
  assumes \<open>CHR ''<'' \<notin> set s\<close>
  shows "foldl scan_step (Scan Text stack lis) s = Scan Text stack lis"
  using assms by (induction s) auto

lemma scan_attr_skip:
  assumes \<open>CHR 0x22 \<notin> set s\<close>
  shows "foldl scan_step (Scan (AttrValue nm) stack lis) s = Scan (AttrValue nm) stack lis"
  using assms by (induction s) auto

lemma scan_item:
  assumes \<open>CHR ''<'' \<notin> set f\<close> and \<open>CHR 0x22 \<notin> set f\<close>
  shows "foldl scan_step (Scan Text stack lis) (list_item f) = Scan Text stack (lis @ [stack])"
  using assms
  by (cases "file_kind f")
     (simp_all add: list_item_def curl_linux_def curl_win_def base_url_def
        finish_tag_def void_elements_def scan_text_skip scan_attr_skip)

lemma scan_column_items:
  assumes \<open>\<forall>f \<in> set col. CHR ''<'' \<notin> set f \<and> CHR 0x22 \<notin> set f\<close>
  shows "foldl scan_step (Scan Text stack lis) (column_items col)
           = Scan Text stack (lis @ replicate (length col) stack)"
  using assms
proof (induction col arbitrary: lis)
  case Nil
  show ?case by (simp add: column_items_def)
next
  case (Cons f col)
  have item: "foldl scan_step (Scan Text stack lis) (list_item f) = Scan Text stack (lis @ [stack])"
    using Cons.prems by (intro scan_item) simp_all
  show ?case
  proof (cases "col = []")
    case True
    with item show ?thesis by (simp add: column_items_def)
  next
    case False
    have rest: "foldl scan_step (Scan Text stack (lis @ [stack])) (column_items col)
           = Scan Text stack ((lis @ [stack]) @ replicate (length col) stack)"
      using Cons.prems by (intro Cons.IH) simp
    have \<open>column_items (f # col) = list_item f @ CHR ''\<newline>'' # column_items col\<close>
      using False by (simp add: column_items_def join_Cons)
    then show ?thesis using item rest by (simp add: replicate_app_Cons_same)
  qed
qed

lemma scan_generate_list_items:
  assumes \<open>\<forall>f \<in> set files. CHR ''<'' \<notin> set f \<and> CHR 0x22 \<notin> set f\<close>
  shows \<open>foldl scan_step (Scan Text stack lis) (generate_list_items files)
           = Scan Text stack (lis @ replicate (length files) (''ul'' # ''div'' # stack))\<close>
proof -
  have col: \<open>foldl scan_step (Scan Text st l) (column_items (column_files files i))
           = Scan Text st (l @ replicate (length (column_files files i)) st)\<close> for st l i
    using assms set_column_files [of files i] by (intro scan_column_items) blast
  have \<open>foldl scan_step (Scan Text stack lis) (generate_list_items files)
      = Scan Text stack (lis @ replicate (length (column_files files 0) + length (column_files files 1)
            + length (column_files files 2)) (''ul'' # ''div'' # stack))\<close>
    unfolding generate_list_items_columns
    by (simp add: col finish_tag_def void_elements_def replicate_add)
  then show ?thesis by (simp only: column_lengths_three)
qed

lemma scan_document:
  assumes \<open>foldl scan_step (Scan Text [''body'', ''html''] []) list_items
             = Scan Text [''body'', ''html''] lis\<close>
  shows "scan_html (html_content list_items) = Scan Text [] lis"
  using assms
  by (simp add: scan_html_def html_content_def curl_linux_def curl_win_def base_url_def
        finish_tag_def void_elements_def)

lemma document_starts:
  \<open>prefix ''<!DOCTYPE html>'' (html_content list_items)\<close>
  unfolding html_content_def by (simp del: append_assoc)

lemma document_ends:
  \<open>suffix ''</html>\<newline>'' (html_content list_items)\<close>
  unfolding html_content_def by (intro suffix_appendI) (rule suffix_order.refl)

lemma generate_list_items_structure:
  \<open>generate_list_items files =
     join ''\<newline>''
       (map (\<lambda>col. ''<div style="float:left; width:33%;">'' @ ''<ul>''
                      @ join ''\<newline>'' (map list_item col) @ ''</ul>'' @ ''</div>'')
         (map (column_files files) [0..<num_columns]))\<close>
  by (simp add: generate_list_items_def columns_def column_items_def comp_def)

text \<open>
  Claim C4, as amended. For every file list whose names hold neither \<open><\<close> nor a double
  quote, the rendered document starts with \<open><!DOCTYPE html>\<close> and ends with
  \<open></html>\<close>; its tags are nested and all closed; it holds exactly one \<open>li\<close>
  element per file, each directly inside a \<open>ul\<close> inside a column \<open>div\<close> of the body,
  and exactly three \<open>ul\<close> lists; the column markup is the list items of the files of
  column 0, 1 and 2, in order, and these columns together are the file list.
\<close>

theorem rendered_page_structure:
  assumes "\<forall>f \<in> set files. html_safe f"
  shows \<open>prefix ''<!DOCTYPE html>'' (html_content (generate_list_items files))
    \<and> suffix ''</html>\<newline>'' (html_content (generate_list_items files))
    \<and> well_nested (html_content (generate_list_items files))
    \<and> li_contexts (html_content (generate_list_items files))
        = replicate (length files) [''ul'', ''div'', ''body'', ''html'']
    \<and> count_occ ''<li>'' (html_content (generate_list_items files)) = length files
    \<and> count_occ ''<ul>'' (html_content (generate_list_items files)) = 3
    \<and> generate_list_items files =
        join ''\<newline>''
          (map (\<lambda>col. ''<div style="float:left; width:33%;">'' @ ''<ul>''
                      @ join ''\<newline>'' (map list_item col) @ ''</ul>'' @ ''</div>'')
            (map (column_files files) [0..<num_columns]))
    \<and> concat (map (column_files files) [0..<num_columns]) = files\<close>
proof -
  let ?page = "html_content (generate_list_items files)"
  from assms have lt: \<open>\<forall>f \<in> set files. CHR ''<'' \<notin> set f\<close>
    and both: \<open>\<forall>f \<in> set files. CHR ''<'' \<notin> set f \<and> CHR 0x22 \<notin> set f\<close>
    by (simp_all add: html_safe_def)
  have \<open>foldl scan_step (Scan Text [''body'', ''html''] []) (generate_list_items files)
      = Scan Text [''body'', ''html'']
          ([] @ replicate (length files) (''ul'' # ''div'' # [''body'', ''html'']))\<close>
    using both by (rule scan_generate_list_items)
  then have \<open>foldl scan_step (Scan Text [''body'', ''html''] []) (generate_list_items files)
      = Scan Text [''body'', ''html''] (replicate (length files) [''ul'', ''div'', ''body'', ''html''])\<close>
    by simp
  then have scan: \<open>scan_html ?page
      = Scan Text [] (replicate (length files) [''ul'', ''div'', ''body'', ''html''])\<close>
    by (rule scan_document)
  have 1: \<open>prefix ''<!DOCTYPE html>'' ?page\<close> by (rule document_starts)
  have 2: \<open>suffix ''</html>\<newline>'' ?page\<close> by (rule document_ends)
  have 3: "well_nested ?page" by (simp add: well_nested_def scan)
  have 4: \<open>li_contexts ?page = replicate (length files) [''ul'', ''div'', ''body'', ''html'']\<close>
    by (simp add: li_contexts_def scan)
  have 5: \<open>count_occ ''<li>'' ?page = length files\<close>
    using lt by (simp only: count_li_document count_li_generate_list_items)
  have 6: \<open>count_occ ''<ul>'' ?page = 3\<close>
    using lt by (simp only: count_ul_document count_ul_generate_list_items)
  note 7 = generate_list_items_structure [of files]
  note 8 = concat_columns [of files]
  from 1 2 3 4 5 6 7 8 show ?thesis by (intro conjI)
qed

text \<open>
  Three files with plain names: three list items, each under \<open>html, body, div, ul\<close>.
\<close>

theorem rendered_page_structure_witness:
  \<open>well_nested (html_content (generate_list_items [''a.sh'', ''b.py'', ''c.ps1'']))
   \<and> li_contexts (html_content (generate_list_items [''a.sh'', ''b.py'', ''c.ps1'']))
       = [[''ul'', ''div'', ''body'', ''html''], [''ul'', ''div'', ''body'', ''html''],
          [''ul'', ''div'', ''body'', ''html'']]
   \<and> count_occ ''<li>'' (html_content (generate_list_items [''a.sh'', ''b.py'', ''c.ps1''])) = 3
   \<and> count_occ ''<ul>'' (html_content (generate_list_items [''a.sh'', ''b.py'', ''c.ps1''])) = 3\<close>
proof -
  have safe: \<open>\<forall>f \<in> set [''a.sh'', ''b.py'', ''c.ps1'']. html_safe f\<close>
    by (simp add: html_safe_def)
  note t = rendered_page_structure [OF safe]
  have a: \<open>well_nested (html_content (generate_list_items [''a.sh'', ''b.py'', ''c.ps1'']))\<close>
    by (rule t [THEN conjunct2, THEN conjunct2, THEN conjunct1])
  have \<open>li_contexts (html_content (generate_list_items [''a.sh'', ''b.py'', ''c.ps1'']))
       = replicate (length [''a.sh'', ''b.py'', ''c.ps1'']) [''ul'', ''div'', ''body'', ''html'']\<close>
    by (rule t [THEN conjunct2, THEN conjunct2, THEN conjunct2, THEN conjunct1])
  then have b: \<open>li_contexts (html_content (generate_list_items [''a.sh'', ''b.py'', ''c.ps1'']))
       = [[''ul'', ''div'', ''body'', ''html''], [''ul'', ''div'', ''body'', ''html''],
          [''ul'', ''div'', ''body'', ''html'']]\<close>
    by (simp add: numeral_3_eq_3)
  have \<open>count_occ ''<li>'' (html_content (generate_list_items [''a.sh'', ''b.py'', ''c.ps1'']))
      = length [''a.sh'', ''b.py'', ''c.ps1'']\<close>
    by (rule t [THEN conjunct2, THEN conjunct2, THEN conjunct2, THEN conjunct2, THEN conjunct1])
  then have c: \<open>count_occ ''<li>'' (html_content (generate_list_items [''a.sh'', ''b.py'', ''c.ps1''])) = 3\<close>
    by simp
  have d: \<open>count_occ ''<ul>'' (html_content (generate_list_items [''a.sh'', ''b.py'', ''c.ps1''])) = 3\<close>
    by (rule t [THEN conjunct2, THEN conjunct2, THEN conjunct2, THEN conjunct2, THEN conjunct2,
          THEN conjunct1])
  from a b c d show ?thesis by (intro conjI)
qed

lemma generate_list_items_one:
  \<open>generate_list_items [f] =
     ''<div style="float:left; width:33%;"><ul>'' @ list_item f @ ''</ul></div>\<newline>'' @
     ''<div style="float:left; width:33%;"><ul></ul></div>\<newline>'' @
     ''<div style="float:left; width:33%;"><ul></ul></div>''\<close>
  by (simp add: generate_list_items_columns column_files_def num_per_column_def
        math_ceil_div_def num_columns_def slice_def column_items_def)

lemma scan_Bad: "foldl scan_step Bad s = Bad"
  by (induction s) simp_all

lemma scan_document_broken:
  assumes \<open>foldl scan_step (Scan Text [''body'', ''html''] []) list_items = Bad\<close>
  shows "scan_html (html_content list_items) = Bad"
  using assms
  by (simp add: scan_html_def html_content_def curl_linux_def curl_win_def base_url_def
        finish_tag_def void_elements_def scan_Bad)

text \<open>
  Claim C4 as stated fails: the script writes names into the markup as they are. For the
  one file \<open><li>.sh\<close> (a name the filter keeps) the document holds the text \<open><li>\<close>
  five times, not once, and its tags are not nested.
\<close>

theorem rendered_page_counterexample:
  \<open>count_occ ''<li>'' (html_content (generate_list_items [''<li>.sh''])) = 5
   \<and> count_occ ''<li>'' (html_content (generate_list_items [''<li>.sh''])) \<noteq> length [''<li>.sh'']
   \<and> \<not> well_nested (html_content (generate_list_items [''<li>.sh'']))\<close>
proof -
  have k: \<open>file_kind ''<li>.sh'' = Shell\<close>
    by (simp add: file_kind_def endswith_any_def endswith_def)
  have n: \<open>count_occ ''<li>'' (html_content (generate_list_items [''<li>.sh''])) = 5\<close>
    unfolding count_li_document generate_list_items_one
    by (simp add: list_item_def k curl_linux_def base_url_def)
  have \<open>foldl scan_step (Scan Text [''body'', ''html''] []) (generate_list_items [''<li>.sh'']) = Bad\<close>
    unfolding generate_list_items_one
    by (simp add: list_item_def k curl_linux_def base_url_def finish_tag_def void_elements_def scan_Bad)
  then have \<open>scan_html (html_content (generate_list_items [''<li>.sh''])) = Bad\<close>
    by (rule scan_document_broken)
  then have w: \<open>\<not> well_nested (html_content (generate_list_items [''<li>.sh'']))\<close>
    by (simp add: well_nested_def)
  from n w show ?thesis by simp
qed

text \<open>
  Claim C7. For the empty file list the column markup is three \<open>div\<close> elements, each
  holding the empty list \<open><ul></ul>\<close>; the whole document holds \<open><ul></ul>\<close> three
  times, \<open><ul>\<close> three times and \<open><li>\<close> not at all, opens no \<open>li\<close> element and is
  well nested.
\<close>

theorem empty_directory_page:
  \<open>generate_list_items [] =
     ''<div style="float:left; width:33%;"><ul></ul></div>\<newline>'' @
     ''<div style="float:left; width:33%;"><ul></ul></div>\<newline>'' @
     ''<div style="float:left; width:33%;"><ul></ul></div>''
   \<and> count_occ ''<ul></ul>'' (html_content (generate_list_items [])) = 3
   \<and> count_occ ''<ul>'' (html_content (generate_list_items [])) = 3
   \<and> count_occ ''<li>'' (html_content (generate_list_items [])) = 0
   \<and> li_contexts (html_content (generate_list_items [])) = []
   \<and> well_nested (html_content (generate_list_items []))\<close>
proof -
  have a: \<open>count_occ ''<ul></ul>'' (html_content (generate_list_items [])) = 3\<close>
    unfolding count_empty_ul_document generate_list_items_empty by simp
  have b: \<open>count_occ ''<ul>'' (html_content (generate_list_items [])) = 3\<close>
    unfolding count_ul_document generate_list_items_empty by simp
  have c: \<open>count_occ ''<li>'' (html_content (generate_list_items [])) = 0\<close>
    unfolding count_li_document generate_list_items_empty by simp
  have \<open>foldl scan_step (Scan Text [''body'', ''html''] []) (generate_list_items [])
      = Scan Text [''body'', ''html''] []\<close>
    unfolding generate_list_items_empty by (simp add: finish_tag_def void_elements_def)
  then have s: \<open>scan_html (html_content (generate_list_items [])) = Scan Text [] []\<close>
    by (rule scan_document)
  have d: \<open>li_contexts (html_content (generate_list_items [])) = []\<close>
    by (simp add: li_contexts_def s)
  have e: \<open>well_nested (html_content (generate_list_items []))\<close>
    by (simp add: well_nested_def s)
  from generate_list_items_empty a b c d e show ?thesis by (intro conjI)
qed

section \<open>The scan filter\<close>

lemma count_other_document:
  \<open>count_occ ''d.txt'' (html_content list_items) = count_occ ''d.txt'' list_items\<close>
  by (simp add: html_content_def curl_linux_def curl_win_def base_url_def count_occ_append)

text \<open>
  Claim C3. A name is in the filtered list exactly when it is a directory entry ending
  in \<open>.sh\<close>, \<open>.bash\<close>, \<open>.py\<close>, \<open>.pyw\<close> or \<open>.ps1\<close>, and the filtered list keeps the
  listing order. An entry \<open>e\<close> with any other name is not in the filtered list, is in
  no column, and the document is the one generated from the listing without \<open>e\<close>.
\<close>

theorem scan_filter:
  \<open>(file \<in> set (files_of entries) \<longleftrightarrow>
      file \<in> set entries \<and>
      (endswith file ''.sh'' \<or> endswith file ''.bash'' \<or> endswith file ''.py''
        \<or> endswith file ''.pyw'' \<or> endswith file ''.ps1''))
   \<and> subseq (files_of entries) entries
   \<and> (\<not> (endswith e ''.sh'' \<or> endswith e ''.bash'' \<or> endswith e ''.py''
          \<or> endswith e ''.pyw'' \<or> endswith e ''.ps1'') \<longrightarrow>
        e \<notin> set (files_of entries)
        \<and> e \<notin> set (concat (map (column_files (files_of entries)) [0..<num_columns]))
        \<and> files_of (before @ e # after) = files_of (before @ after)
        \<and> html_content (generate_list_items (files_of (before @ e # after)))
            = html_content (generate_list_items (files_of (before @ after))))\<close>
proof (intro conjI impI)
  show \<open>file \<in> set (files_of entries) \<longleftrightarrow>
      file \<in> set entries \<and>
      (endswith file ''.sh'' \<or> endswith file ''.bash'' \<or> endswith file ''.py''
        \<or> endswith file ''.pyw'' \<or> endswith file ''.ps1'')\<close>
    by (rule files_of_iff)
  show "subseq (files_of entries) entries"
    by (simp add: files_of_def)
next
  assume other: \<open>\<not> (endswith e ''.sh'' \<or> endswith e ''.bash'' \<or> endswith e ''.py''
          \<or> endswith e ''.pyw'' \<or> endswith e ''.ps1'')\<close>
  then show notin: "e \<notin> set (files_of entries)"
    by (simp add: files_of_iff)
  then show "e \<notin> set (concat (map (column_files (files_of entries)) [0..<num_columns]))"
    by (simp add: concat_columns)
  show same: "files_of (before @ e # after) = files_of (before @ after)"
    using other by (rule files_of_drop_entry)
  show "html_content (generate_list_items (files_of (before @ e # after)))
            = html_content (generate_list_items (files_of (before @ after)))"
    by (simp only: same)
qed

text \<open>
  The listing \<open>a.sh, b.py, c.ps1, d.txt\<close>: the first three are kept, the document is
  the one of the listing without \<open>d.txt\<close>, and the text \<open>d.txt\<close> occurs nowhere in it.
\<close>

theorem scan_filter_witness:
  \<open>files_of [''a.sh'', ''b.py'', ''c.ps1'', ''d.txt''] = [''a.sh'', ''b.py'', ''c.ps1'']
   \<and> ''d.txt'' \<notin> set (files_of [''a.sh'', ''b.py'', ''c.ps1'', ''d.txt''])
   \<and> ''c.ps1'' \<in> set (files_of [''a.sh'', ''b.py'', ''c.ps1'', ''d.txt''])
   \<and> html_content (generate_list_items (files_of [''a.sh'', ''b.py'', ''c.ps1'', ''d.txt'']))
       = html_content (generate_list_items (files_of [''a.sh'', ''b.py'', ''c.ps1'']))
   \<and> count_occ ''d.txt''
        (html_content (generate_list_items (files_of [''a.sh'', ''b.py'', ''c.ps1'', ''d.txt'']))) = 0\<close>
proof -
  have other: \<open>\<not> (endswith ''d.txt'' ''.sh'' \<or> endswith ''d.txt'' ''.bash''
      \<or> endswith ''d.txt'' ''.py'' \<or> endswith ''d.txt'' ''.pyw'' \<or> endswith ''d.txt'' ''.ps1'')\<close>
    by (simp add: endswith_def)
  have listed: \<open>''c.ps1'' \<in> set [''a.sh'', ''b.py'', ''c.ps1'', ''d.txt''] \<and>
      (endswith ''c.ps1'' ''.sh'' \<or> endswith ''c.ps1'' ''.bash'' \<or> endswith ''c.ps1'' ''.py''
        \<or> endswith ''c.ps1'' ''.pyw'' \<or> endswith ''c.ps1'' ''.ps1'')\<close>
    by (simp add: endswith_def)
  have fs: \<open>files_of [''a.sh'', ''b.py'', ''c.ps1'', ''d.txt''] = [''a.sh'', ''b.py'', ''c.ps1'']\<close>
    by (simp add: files_of_def endswith_any_def endswith_def)
  note t = scan_filter [of \<open>''c.ps1''\<close> \<open>[''a.sh'', ''b.py'', ''c.ps1'', ''d.txt'']\<close>
      \<open>''d.txt''\<close> \<open>[''a.sh'', ''b.py'', ''c.ps1'']\<close> \<open>[]\<close>]
  from t listed have m: \<open>''c.ps1'' \<in> set (files_of [''a.sh'', ''b.py'', ''c.ps1'', ''d.txt''])\<close>
    by blast
  from t other have n: \<open>''d.txt'' \<notin> set (files_of [''a.sh'', ''b.py'', ''c.ps1'', ''d.txt''])\<close>
    by blast
  from t other have
    \<open>html_content (generate_list_items (files_of ([''a.sh'', ''b.py'', ''c.ps1''] @ ''d.txt'' # [])))
       = html_content (generate_list_items (files_of ([''a.sh'', ''b.py'', ''c.ps1''] @ [])))\<close>
    by blast
  then have h:
    \<open>html_content (generate_list_items (files_of [''a.sh'', ''b.py'', ''c.ps1'', ''d.txt'']))
       = html_content (generate_list_items (files_of [''a.sh'', ''b.py'', ''c.ps1'']))\<close>
    by simp
  have \<open>count_occ ''d.txt'' (generate_list_items [''a.sh'', ''b.py'', ''c.ps1'']) = 0\<close>
    by (simp add: generate_list_items_columns column_files_def num_per_column_def
          math_ceil_div_def num_columns_def slice_def column_items_def list_item_def
          file_kind_def endswith_any_def endswith_def curl_linux_def curl_win_def base_url_def)
  then have c: \<open>count_occ ''d.txt''
        (html_content (generate_list_items (files_of [''a.sh'', ''b.py'', ''c.ps1'', ''d.txt'']))) = 0\<close>
    by (simp only: fs count_other_document)
  from fs m n h c show ?thesis by blast
qed

text \<open>
  Claim C8. The rendering has a fallback: a file of kind \<open>Unsupported\<close>, which is a name
  with none of the five suffixes, gets the item whose button says
  \<open>Unsupported file type\<close>. No file of the filtered list, hence no file of any column,
  is of that kind.
\<close>

theorem fallback_unreachable:
  \<open>(file_kind file = Unsupported \<longrightarrow>
      list_item file =
        ''\<newline>            <li>\<newline>'' @
        ''                <button onclick="alert('Unsupported file type!')" title="Unsupported file type">Copy</button>\<newline>'' @
        ''                <a href="'' @ file @ ''">'' @ file @ ''</a>\<newline>'' @
        ''            </li>\<newline>            '')
   \<and> (file_kind file = Unsupported \<longleftrightarrow>
        \<not> (endswith file ''.sh'' \<or> endswith file ''.bash'' \<or> endswith file ''.py''
          \<or> endswith file ''.pyw'' \<or> endswith file ''.ps1''))
   \<and> (\<forall>f \<in> set (files_of entries). file_kind f \<noteq> Unsupported)
   \<and> (\<forall>i. \<forall>f \<in> set (column_files (files_of entries) i). file_kind f \<noteq> Unsupported)\<close>
proof (intro conjI impI allI ballI)
  assume "file_kind file = Unsupported"
  then show \<open>list_item file =
        ''\<newline>            <li>\<newline>'' @
        ''                <button onclick="alert('Unsupported file type!')" title="Unsupported file type">Copy</button>\<newline>'' @
        ''                <a href="'' @ file @ ''">'' @ file @ ''</a>\<newline>'' @
        ''            </li>\<newline>            ''\<close>
    by (simp add: list_item_def)
next
  show \<open>file_kind file = Unsupported \<longleftrightarrow>
        \<not> (endswith file ''.sh'' \<or> endswith file ''.bash'' \<or> endswith file ''.py''
          \<or> endswith file ''.pyw'' \<or> endswith file ''.ps1'')\<close>
    using recognized_kind [of "file"] by (simp add: endswith_any_def)
next
  fix f assume "f \<in> set (files_of entries)"
  then show "file_kind f \<noteq> Unsupported"
    by (simp add: files_of_def recognized_kind)
next
  fix i f assume "f \<in> set (column_files (files_of entries) i)"
  then have "f \<in> set (files_of entries)" using set_column_files by blast
  then show "file_kind f \<noteq> Unsupported"
    by (simp add: files_of_def recognized_kind)
qed

text \<open>
  \<open>d.txt\<close> would take the fallback; the three files the filter keeps of
  \<open>a.sh, b.py, c.ps1, d.txt\<close> do not.
\<close>

theorem fallback_unreachable_witness:
  \<open>file_kind ''d.txt'' = Unsupported
   \<and> list_item ''d.txt'' =
        ''\<newline>            <li>\<newline>'' @
        ''                <button onclick="alert('Unsupported file type!')" title="Unsupported file type">Copy</button>\<newline>'' @
        ''                <a href="d.txt">d.txt</a>\<newline>'' @
        ''            </li>\<newline>            ''
   \<and> file_kind ''a.sh'' = Shell \<and> file_kind ''b.py'' = Python \<and> file_kind ''c.ps1'' = PowerShell
   \<and> file_kind ''a.sh'' \<noteq> Unsupported \<and> file_kind ''b.py'' \<noteq> Unsupported
   \<and> file_kind ''c.ps1'' \<noteq> Unsupported\<close>
proof -
  have k: \<open>file_kind ''d.txt'' = Unsupported\<close>
    by (simp add: file_kind_def endswith_any_def endswith_def)
  have fs: \<open>files_of [''a.sh'', ''b.py'', ''c.ps1'', ''d.txt''] = [''a.sh'', ''b.py'', ''c.ps1'']\<close>
    by (simp add: files_of_def endswith_any_def endswith_def)
  have ks: \<open>file_kind ''a.sh'' = Shell \<and> file_kind ''b.py'' = Python \<and> file_kind ''c.ps1'' = PowerShell\<close>
    by (simp add: file_kind_def endswith_any_def endswith_def)
  from fallback_unreachable [of \<open>''d.txt''\<close> \<open>[''a.sh'', ''b.py'', ''c.ps1'', ''d.txt'']\<close>] k fs ks
  show ?thesis by simp
qed

text \<open>
  Claim C10. A name that ends in a suffix \<open>v\<close> which is a recognised suffix in lower
  case but is not written in lower case (\<open>.SH\<close>, \<open>.Py\<close>) matches none of the five
  suffixes: it is not in the filtered list, is in no column, and the filtered list is
  the one of the listing without it.
\<close>

theorem case_sensitive_filter:
  assumes \<open>map ascii_lower v \<in> set [''.sh'', ''.bash'', ''.py'', ''.pyw'', ''.ps1'']\<close>
    and "v \<noteq> map ascii_lower v"
  shows \<open>\<not> endswith_any (stem @ v) [''.sh'', ''.bash'', ''.py'', ''.pyw'', ''.ps1'']
    \<and> stem @ v \<notin> set (files_of entries)
    \<and> stem @ v \<notin> set (concat (map (column_files (files_of entries)) [0..<num_columns]))
    \<and> files_of (before @ (stem @ v) # after) = files_of (before @ after)\<close>
proof -
  have no: \<open>\<not> endswith (stem @ v) r\<close>
    if \<open>r \<in> set [''.sh'', ''.bash'', ''.py'', ''.pyw'', ''.ps1'']\<close> for r
    using assms that by (rule case_variant_not_recognized)
  then have a: \<open>\<not> endswith_any (stem @ v) [''.sh'', ''.bash'', ''.py'', ''.pyw'', ''.ps1'']\<close>
    by (simp add: endswith_any_def)
  then have b: "stem @ v \<notin> set (files_of entries)"
    by (simp add: files_of_def)
  then have c: "stem @ v \<notin> set (concat (map (column_files (files_of entries)) [0..<num_columns]))"
    by (simp add: concat_columns)
  have d: "files_of (before @ (stem @ v) # after) = files_of (before @ after)"
    using a by (simp add: files_of_def)
  from a b c d show ?thesis by blast
qed

text \<open>
  \<open>X.SH\<close> is dropped from a listing that also holds \<open>a.sh\<close>.
\<close>

theorem case_sensitive_filter_witness:
  \<open>map ascii_lower ''.SH'' \<in> set [''.sh'', ''.bash'', ''.py'', ''.pyw'', ''.ps1'']
   \<and> ''.SH'' \<noteq> map ascii_lower ''.SH''
   \<and> \<not> endswith_any ''X.SH'' [''.sh'', ''.bash'', ''.py'', ''.pyw'', ''.ps1'']
   \<and> ''X.SH'' \<notin> set (files_of [''X.SH'', ''y.PY'', ''a.sh''])
   \<and> files_of [''X.SH'', ''a.sh''] = files_of [''a.sh'']\<close>
proof -
  have h1: \<open>map ascii_lower ''.SH'' \<in> set [''.sh'', ''.bash'', ''.py'', ''.pyw'', ''.ps1'']\<close>
    by (simp add: ascii_lower_def)
  have h2: \<open>''.SH'' \<noteq> map ascii_lower ''.SH''\<close>
    by (simp add: ascii_lower_def)
  from case_sensitive_filter [OF h1 h2, of \<open>''X''\<close> \<open>[''X.SH'', ''y.PY'', ''a.sh'']\<close> \<open>[]\<close> \<open>[''a.sh'']\<close>]
    h1 h2
  show ?thesis by simp
qed

end
